theory Spec2Isabelle
  imports Main
begin

section \<open>The Yanductor backend: data model\<close>

text \<open>
  A shallow embedding of \<^verbatim>\<open>backend/yanductor/yanductor.go\<close>. Go strings and byte slices
  are \<open>string\<close>; \<^verbatim>\<open>time.Time\<close> and \<^verbatim>\<open>time.Duration\<close> are integers (nanoseconds);
  a Go \<^verbatim>\<open>error\<close> return is an \<open>error option\<close> (\<open>None\<close> is \<^verbatim>\<open>nil\<close>).
\<close>

text \<open>A decoded JSON value, as \<^verbatim>\<open>encoding/json\<close> stores it in an \<^verbatim>\<open>interface{}\<close>.
  An object is an association list read with \<open>map_of\<close>.\<close>

datatype json =
    JNull
  | JBool bool
  | JNum int
  | JStr string
  | JArr "json list"
  | JObj "(string \<times> json) list"

datatype error =
    ErrNotExist
  | ErrOS string
  | ErrHTTP string
  | ErrJSON string
  | ErrWorkgroupsNotConfigured
  | ErrURLNotConfigured
  | ErrLoadingData error
  | ErrStatusCode int string
  | ErrCreatingCacheDir error
  | ErrMissingMeta
  | ErrMissingHostvars

text \<open>The fields of \<^verbatim>\<open>store.Host\<close>, \<^verbatim>\<open>store.Datacenter\<close> and \<^verbatim>\<open>store.Group\<close>
  that the backend sets.\<close>

record host =
  FQDN :: string
  GroupID :: string
  DatacenterID :: string

record datacenter =
  Name :: string

record group =
  Name :: string
  ParentID :: string
  Hosts :: "host list"

record yanductor =
  workgroupNames :: "string list"
  cacheTTL :: int
  cacheDir :: string
  apiURL :: string
  hosts :: "host list"
  groups :: "group list"
  workgroups :: "string list"
  datacenters :: "datacenter list"
  parentMap :: "string \<rightharpoonup> string"

record config =
  CacheTTL :: int
  CacheDir :: string
  Options :: "string \<rightharpoonup> string"

section \<open>The environment\<close>

text \<open>
  Every call that leaves the process is recorded in a trace, and its outcome is read from
  the environment: the file system (\<^verbatim>\<open>os.Stat\<close>, \<^verbatim>\<open>os.ReadFile\<close>, \<^verbatim>\<open>os.MkdirAll\<close>,
  \<^verbatim>\<open>os.WriteFile\<close>), the network (\<^verbatim>\<open>http.Get\<close>, then \<^verbatim>\<open>io.ReadAll\<close> on the body) and
  the clock. \<^verbatim>\<open>json.Unmarshal\<close> is library code: its result on given bytes is a field of
  the environment too, the entries of the top-level object listed in the order in which
  \<^verbatim>\<open>range\<close> will visit them (Go leaves that order unspecified).
\<close>

datatype event =
    EvStat string
  | EvReadFile string
  | EvHttpGet string
  | EvReadBody
  | EvMkdirAll string
  | EvWriteFile string string

record world =
  time_Now :: int
  stat_of :: "string \<Rightarrow> error + int"
  file_of :: "string \<Rightarrow> error + string"
  http_of :: "string \<Rightarrow> error + (int \<times> (error + string))"
  mkdir_of :: "string \<Rightarrow> error option"
  write_of :: "string \<Rightarrow> error option"
  unmarshal_of :: "string \<Rightarrow> error + (string \<times> json) list"
  trace :: "event list"

definition os_Stat :: "string \<Rightarrow> world \<Rightarrow> (error + int) \<times> world" where
  "os_Stat p w = (stat_of w p, w\<lparr>trace := trace w @ [EvStat p]\<rparr>)"

definition os_IsNotExist :: "error \<Rightarrow> bool" where
  "os_IsNotExist e = (e = ErrNotExist)"

definition os_ReadFile :: "string \<Rightarrow> world \<Rightarrow> (error + string) \<times> world" where
  "os_ReadFile p w = (file_of w p, w\<lparr>trace := trace w @ [EvReadFile p]\<rparr>)"

definition os_MkdirAll :: "string \<Rightarrow> world \<Rightarrow> error option \<times> world" where
  "os_MkdirAll p w = (mkdir_of w p, w\<lparr>trace := trace w @ [EvMkdirAll p]\<rparr>)"

text \<open>A write that succeeds replaces the content and the modification time of the file.\<close>

definition os_WriteFile :: "string \<Rightarrow> string \<Rightarrow> world \<Rightarrow> error option \<times> world" where
  "os_WriteFile p d w =
     (let w1 = w\<lparr>trace := trace w @ [EvWriteFile p d]\<rparr> in
      case write_of w p of
        Some e \<Rightarrow> (Some e, w1)
      | None \<Rightarrow> (None, w1\<lparr>file_of := (file_of w1)(p := Inr d),
                            stat_of := (stat_of w1)(p := Inr (time_Now w1))\<rparr>))"

definition http_Get :: "string \<Rightarrow> world \<Rightarrow> (error + (int \<times> (error + string))) \<times> world" where
  "http_Get u w = (http_of w u, w\<lparr>trace := trace w @ [EvHttpGet u]\<rparr>)"

definition io_ReadAll :: "(error + string) \<Rightarrow> world \<Rightarrow> (error + string) \<times> world" where
  "io_ReadAll body w = (body, w\<lparr>trace := trace w @ [EvReadBody]\<rparr>)"

section \<open>The inventory parser\<close>

text \<open>\<^verbatim>\<open>contains\<close>: is there a datacenter of that name in the slice.\<close>

fun contains :: "datacenter list \<Rightarrow> string \<Rightarrow> bool" where
  "contains [] item = False"
| "contains (s # slice) item = (if datacenter.Name s = item then True else contains slice item)"

text \<open>The loop over \<^verbatim>\<open>children\<close>: the first parent recorded for a child wins.\<close>

fun childrenLoop :: "string \<Rightarrow> (string \<rightharpoonup> string) \<Rightarrow> json list \<Rightarrow> (string \<rightharpoonup> string)" where
  "childrenLoop grp pm [] = pm"
| "childrenLoop grp pm (child # children) =
     (case child of
        JStr childStr \<Rightarrow>
          (if pm childStr = None then childrenLoop grp (pm(childStr \<mapsto> grp)) children
           else childrenLoop grp pm children)
      | _ \<Rightarrow> childrenLoop grp pm children)"

text \<open>\<^verbatim>\<open>groupObj\<close> is a pointer that \<^verbatim>\<open>y.groups\<close> already holds as its last element when the
  hosts are read, so appending to \<^verbatim>\<open>groupObj.Hosts\<close> updates that element.\<close>

definition appendGroupHost :: "yanductor \<Rightarrow> host \<Rightarrow> yanductor" where
  "appendGroupHost y h =
     (case groups y of
        [] \<Rightarrow> y
      | _ \<Rightarrow> y\<lparr>groups := butlast (groups y) @
                 [(last (groups y))\<lparr>Hosts := Hosts (last (groups y)) @ [h]\<rparr>]\<rparr>)"

text \<open>The value of \<^verbatim>\<open>hostInfo["dc"].(string)\<close>, with the default of the source.\<close>

definition dcOf :: "(string \<times> json) list \<Rightarrow> string" where
  "dcOf hostInfo = (case map_of hostInfo ''dc'' of Some (JStr dc) \<Rightarrow> dc | _ \<Rightarrow> '''')"

fun hostsLoop :: "(string \<times> json) list \<Rightarrow> string \<Rightarrow> yanductor \<Rightarrow> json list \<Rightarrow> yanductor" where
  "hostsLoop hostvars grp y [] = y"
| "hostsLoop hostvars grp y (h # hs) =
     (case h of
        JStr hostName \<Rightarrow>
          (case map_of hostvars hostName of
             Some (JObj hostInfo) \<Rightarrow>
               (let dc = dcOf hostInfo;
                    hostObj = \<lparr>FQDN = hostName, GroupID = grp, DatacenterID = dc\<rparr>;
                    y1 = y\<lparr>hosts := hosts y @ [hostObj]\<rparr>;
                    y2 = appendGroupHost y1 hostObj;
                    y3 = (if \<not> contains (datacenters y2) dc
                          then y2\<lparr>datacenters := datacenters y2 @ [\<lparr>datacenter.Name = dc\<rparr>]\<rparr>
                          else y2)
                in hostsLoop hostvars grp y3 hs)
           | _ \<Rightarrow> hostsLoop hostvars grp y hs)
      | _ \<Rightarrow> hostsLoop hostvars grp y hs)"

text \<open>One iteration of \<^verbatim>\<open>for group, groupData := range rawData\<close>.\<close>

definition groupStep :: "(string \<times> json) list \<Rightarrow> yanductor \<Rightarrow> string \<times> json \<Rightarrow> yanductor" where
  "groupStep hostvars y entry =
     (let grp = fst entry; groupData = snd entry in
      if grp = ''_meta'' then y
      else case groupData of
        JObj groupMap \<Rightarrow>
          (let y1 = (case map_of groupMap ''children'' of
                       Some (JArr children) \<Rightarrow>
                         y\<lparr>parentMap := childrenLoop grp (parentMap y) children\<rparr>
                     | _ \<Rightarrow> y);
               groupObj = \<lparr>group.Name = grp,
                           ParentID = (case parentMap y1 grp of Some p \<Rightarrow> p | None \<Rightarrow> ''''),
                           Hosts = []\<rparr>;
               y2 = y1\<lparr>groups := groups y1 @ [groupObj]\<rparr>
           in case map_of groupMap ''hosts'' of
                Some (JArr hs) \<Rightarrow> hostsLoop hostvars grp y2 hs
              | _ \<Rightarrow> y2)
      | _ \<Rightarrow> y)"

fun groupsLoop :: "(string \<times> json) list \<Rightarrow> yanductor \<Rightarrow> (string \<times> json) list \<Rightarrow> yanductor" where
  "groupsLoop hostvars y [] = y"
| "groupsLoop hostvars y (entry # rest) = groupsLoop hostvars (groupStep hostvars y entry) rest"

definition resetCollections :: "yanductor \<Rightarrow> yanductor" where
  "resetCollections y = y\<lparr>hosts := [], groups := [], datacenters := [], parentMap := Map.empty\<rparr>"

definition parseData :: "yanductor \<Rightarrow> world \<Rightarrow> string \<Rightarrow> error option \<times> yanductor" where
  "parseData y w data =
     (case unmarshal_of w data of
        Inl err \<Rightarrow> (Some err, y)
      | Inr rawData \<Rightarrow>
          (let y0 = resetCollections y in
           case map_of rawData ''_meta'' of
             Some (JObj meta) \<Rightarrow>
               (case map_of meta ''hostvars'' of
                  Some (JObj hostvars) \<Rightarrow> (None, groupsLoop hostvars y0 rawData)
                | _ \<Rightarrow> (Some ErrMissingHostvars, y0))
           | _ \<Rightarrow> (Some ErrMissingMeta, y0)))"

section \<open>The cache file and the loader\<close>

text \<open>\<^verbatim>\<open>strings.Join\<close>.\<close>

fun strings_Join :: "string list \<Rightarrow> string \<Rightarrow> string" where
  "strings_Join [] sep = ''''"
| "strings_Join [x] sep = x"
| "strings_Join (x # v # xs) sep = x @ sep @ strings_Join (v # xs) sep"

text \<open>
  \<^verbatim>\<open>path.Join\<close> of the standard library puts a slash between its elements and returns
  \<^verbatim>\<open>path.Clean\<close> of the result. \<open>path_Clean\<close> works on the elements between slashes:
  empty elements and \<^verbatim>\<open>.\<close> are dropped, \<^verbatim>\<open>..\<close> removes the element before it when there
  is one that is not \<^verbatim>\<open>..\<close> itself, is dropped at the root, and is kept otherwise; an empty
  result is \<^verbatim>\<open>.\<close>.
\<close>

fun splitSlash :: "string \<Rightarrow> string \<Rightarrow> string list" where
  "splitSlash cur [] = [cur]"
| "splitSlash cur (c # cs) =
     (if c = CHR ''/'' then cur # splitSlash [] cs else splitSlash (cur @ [c]) cs)"

fun cleanElems :: "bool \<Rightarrow> string list \<Rightarrow> string list \<Rightarrow> string list" where
  "cleanElems rooted out [] = out"
| "cleanElems rooted out (e # es) =
     (if e = '''' \<or> e = ''.'' then cleanElems rooted out es
      else if e = ''..'' then
        (if out \<noteq> [] \<and> last out \<noteq> ''..'' then cleanElems rooted (butlast out) es
         else if \<not> rooted then cleanElems rooted (out @ [e]) es
         else cleanElems rooted out es)
      else cleanElems rooted (out @ [e]) es)"

definition path_Clean :: "string \<Rightarrow> string" where
  "path_Clean p =
     (if p = [] then ''.''
      else let rooted = (hd p = CHR ''/'');
               out = (if rooted then ''/'' else '''') @
                     strings_Join (cleanElems rooted [] (splitSlash [] p)) ''/''
           in if out = [] then ''.'' else out)"

fun joinElems :: "string \<Rightarrow> string list \<Rightarrow> string" where
  "joinElems buf [] = buf"
| "joinElems buf (e # es) =
     (if buf \<noteq> [] \<or> e \<noteq> []
      then joinElems ((if buf \<noteq> [] then buf @ ''/'' else buf) @ e) es
      else joinElems buf es)"

definition path_Join :: "string list \<Rightarrow> string" where
  "path_Join elem = (if concat elem = [] then '''' else path_Clean (joinElems [] elem))"

definition cacheFilename :: "yanductor \<Rightarrow> string" where
  "cacheFilename y =
     path_Join [cacheDir y,
                ''yanductor_cache_'' @ strings_Join (workgroupNames y) ''_'' @ ''.json'']"

text \<open>\<^verbatim>\<open>time.Time\<close> arithmetic is on unbounded integers here.\<close>

definition cacheExpired :: "yanductor \<Rightarrow> world \<Rightarrow> bool \<times> world" where
  "cacheExpired y w =
     (case os_Stat (cacheFilename y) w of
        (Inl err, w1) \<Rightarrow> (os_IsNotExist err, w1)
      | (Inr modTime, w1) \<Rightarrow> (modTime + cacheTTL y < time_Now w1, w1))"

definition loadLocal :: "yanductor \<Rightarrow> world \<Rightarrow> error option \<times> yanductor \<times> world" where
  "loadLocal y w =
     (case os_ReadFile (cacheFilename y) w of
        (Inl err, w1) \<Rightarrow> (Some err, y, w1)
      | (Inr data, w1) \<Rightarrow> (case parseData y w1 data of (r, y1) \<Rightarrow> (r, y1, w1)))"

definition saveCache :: "yanductor \<Rightarrow> string \<Rightarrow> world \<Rightarrow> error option \<times> world" where
  "saveCache y data w =
     (case os_MkdirAll (cacheDir y) w of
        (Some err, w1) \<Rightarrow> (Some (ErrCreatingCacheDir err), w1)
      | (None, w1) \<Rightarrow> os_WriteFile (cacheFilename y) data w1)"

definition remoteURL :: "yanductor \<Rightarrow> string" where
  "remoteURL y =
     apiURL y @ ''/api/generator/rivik.ansible-inventory?projects='' @
     strings_Join (workgroupNames y) '',''"

definition loadRemote :: "yanductor \<Rightarrow> world \<Rightarrow> error option \<times> yanductor \<times> world" where
  "loadRemote y w =
     (let url = remoteURL y in
      case http_Get url w of
        (Inl err, w1) \<Rightarrow> (Some err, y, w1)
      | (Inr (statusCode, body), w1) \<Rightarrow>
          if statusCode \<noteq> 200 then (Some (ErrStatusCode statusCode url), y, w1)
          else case io_ReadAll body w1 of
            (Inl err, w2) \<Rightarrow> (Some err, y, w2)
          | (Inr data, w2) \<Rightarrow>
              (case parseData y w2 data of
                 (Some err, y1) \<Rightarrow> (Some err, y1, w2)
               | (None, y1) \<Rightarrow>
                   (case saveCache y1 data w2 of (r, w3) \<Rightarrow> (r, y1, w3))))"

definition Reload :: "yanductor \<Rightarrow> world \<Rightarrow> error option \<times> yanductor \<times> world" where
  "Reload y w =
     (case loadRemote y w of
        (Some err, y1, w1) \<Rightarrow> loadLocal y1 w1
      | (None, y1, w1) \<Rightarrow> (None, y1, w1))"

definition Load :: "yanductor \<Rightarrow> world \<Rightarrow> error option \<times> yanductor \<times> world" where
  "Load y w =
     (case cacheExpired y w of
        (True, w1) \<Rightarrow> Reload y w1
      | (False, w1) \<Rightarrow> loadLocal y w1)"

section \<open>Construction\<close>

text \<open>The class \<^verbatim>\<open>\s\<close> of Go's regular expressions: tab, newline, form feed, carriage
  return and space.\<close>

definition isSpace :: "char \<Rightarrow> bool" where
  "isSpace c = (c = CHR 0x09 \<or> c = CHR 0x0A \<or> c = CHR 0x0C \<or> c = CHR 0x0D \<or> c = CHR '' '')"

text \<open>
  \<^verbatim>\<open>regexp.MustCompile(`\s*,\s*`).Split(s, -1)\<close> on a non-empty \<open>s\<close>: the pieces between
  the commas, without the white space that touches a comma. \<open>cur\<close> is the piece read so
  far, \<open>ws\<close> the white space after it, which belongs to the piece unless a comma follows;
  \<open>after\<close> says that only white space has been read since the last comma.
\<close>

fun splitLoop :: "bool \<Rightarrow> string \<Rightarrow> string \<Rightarrow> string \<Rightarrow> string list" where
  "splitLoop after cur ws [] = [cur @ ws]"
| "splitLoop after cur ws (c # cs) =
     (if c = CHR '','' then cur # splitLoop True [] [] cs
      else if isSpace c then
        (if after then splitLoop True [] [] cs else splitLoop False cur (ws @ [c]) cs)
      else splitLoop False (cur @ ws @ [c]) [] cs)"

definition regexp_Split :: "string \<Rightarrow> string list" where
  "regexp_Split s = splitLoop False [] [] s"

definition New :: "config \<Rightarrow> world \<Rightarrow> (error + yanductor) \<times> world" where
  "New cfg w =
     (let y = \<lparr>workgroupNames = [], cacheTTL = CacheTTL cfg, cacheDir = CacheDir cfg,
                apiURL = '''', hosts = [], groups = [], workgroups = [], datacenters = [],
                parentMap = Map.empty\<rparr>;
          options = Options cfg
      in case options ''work_groups'' of
           None \<Rightarrow> (Inl ErrWorkgroupsNotConfigured, w)
         | Some wgString \<Rightarrow>
             if wgString = '''' then (Inl ErrWorkgroupsNotConfigured, w)
             else let y1 = y\<lparr>workgroupNames := regexp_Split wgString\<rparr>
                  in case options ''url'' of
                       None \<Rightarrow> (Inl ErrURLNotConfigured, w)
                     | Some url \<Rightarrow>
                         (let y2 = y1\<lparr>apiURL := url\<rparr>
                          in case Load y2 w of
                               (Some err, y3, w1) \<Rightarrow> (Inl (ErrLoadingData err), w1)
                             | (None, y3, w1) \<Rightarrow> (Inr y3, w1)))"

section \<open>Auxiliary notions and sample data\<close>

text \<open>The hostvars table of a decoded document, when the \<^verbatim>\<open>_meta\<close> section and the table in
  it both are objects.\<close>

definition hostvarsOf :: "(string \<times> json) list \<Rightarrow> (string \<times> json) list option" where
  "hostvarsOf rawData =
     (case map_of rawData ''_meta'' of
        Some (JObj meta) \<Rightarrow>
          (case map_of meta ''hostvars'' of Some (JObj hostvars) \<Rightarrow> Some hostvars | _ \<Rightarrow> None)
      | _ \<Rightarrow> None)"


text \<open>The datacenter names are the datacenters of the hosts, each once, in the order of
  their first occurrence.\<close>

definition dcInv :: "yanductor \<Rightarrow> bool" where
  "dcInv y =
     (map datacenter.Name (datacenters y) = rev (remdups (rev (map DatacenterID (hosts y)))))"

text \<open>A backend for the workgroup \<^verbatim>\<open>a\<close> with its cache under \<^verbatim>\<open>/c\<close>.\<close>

definition exY :: yanductor where
  "exY = \<lparr>workgroupNames = [''a''], cacheTTL = 10, cacheDir = ''/c'', apiURL = ''http://h'',
           hosts = [], groups = [], workgroups = [], datacenters = [], parentMap = Map.empty\<rparr>"

text \<open>The document of Scenario A, and its decoded form in two orders of traversal.\<close>

definition docA :: string where
  \<open>docA = ''{"_meta":{"hostvars":{"a.x":{"dc":"dc1"}}},"g1":{"hosts":["a.x"],"children":["g2"]},"g2":{"hosts":[]}}''\<close>

definition metaA :: json where
  "metaA = JObj [(''hostvars'', JObj [(''a.x'', JObj [(''dc'', JStr ''dc1'')])])]"

definition g1A :: json where
  "g1A = JObj [(''hosts'', JArr [JStr ''a.x'']), (''children'', JArr [JStr ''g2''])]"

definition g2A :: json where
  "g2A = JObj [(''hosts'', JArr [])]"

definition rawA :: "(string \<times> json) list" where
  "rawA = [(''_meta'', metaA), (''g1'', g1A), (''g2'', g2A)]"

definition rawA_g2_first :: "(string \<times> json) list" where
  "rawA_g2_first = [(''_meta'', metaA), (''g2'', g2A), (''g1'', g1A)]"

definition hostA :: host where
  "hostA = \<lparr>FQDN = ''a.x'', GroupID = ''g1'', DatacenterID = ''dc1''\<rparr>"

definition parsedA :: yanductor where
  "parsedA =
     exY\<lparr>hosts := [hostA],
         groups := [\<lparr>group.Name = ''g1'', ParentID = '''', Hosts = [hostA]\<rparr>,
                    \<lparr>group.Name = ''g2'', ParentID = ''g1'', Hosts = []\<rparr>],
         datacenters := [\<lparr>datacenter.Name = ''dc1''\<rparr>],
         parentMap := [''g2'' \<mapsto> ''g1'']\<rparr>"

text \<open>Environments: no cache file and no network; the same with the other order of
  traversal; a remote answer that is no JSON beside a good cache file; a good remote
  answer with a cache directory that cannot be made; a cache file five time units old;
  a cache file whose status cannot be read.\<close>

definition exWorld :: world where
  "exWorld =
     \<lparr>time_Now = 100,
      stat_of = (\<lambda>p. Inl ErrNotExist),
      file_of = (\<lambda>p. Inl ErrNotExist),
      http_of = (\<lambda>u. Inl (ErrHTTP ''connection refused'')),
      mkdir_of = (\<lambda>p. None),
      write_of = (\<lambda>p. None),
      unmarshal_of = (\<lambda>d. if d = docA then Inr rawA
                            else if d = ''{}'' then Inr []
                            else Inl (ErrJSON ''invalid character'')),
      trace = []\<rparr>"

definition g2FirstWorld :: world where
  "g2FirstWorld =
     exWorld\<lparr>unmarshal_of := (\<lambda>d. if d = docA then Inr rawA_g2_first
                                     else Inl (ErrJSON ''invalid character''))\<rparr>"


definition noWriteWorld :: world where
  "noWriteWorld =
     exWorld\<lparr>http_of := (\<lambda>u. Inr (200, Inr docA)),
             mkdir_of := (\<lambda>p. Some (ErrOS ''permission denied''))\<rparr>"


definition freshWorld :: world where
  "freshWorld = exWorld\<lparr>stat_of := (\<lambda>p. Inr 95), file_of := (\<lambda>p. Inr docA)\<rparr>"

definition statErrWorld :: world where
  "statErrWorld = exWorld\<lparr>stat_of := (\<lambda>p. Inl (ErrOS ''permission denied''))\<rparr>"

text \<open>A configuration whose URL option is present and empty.\<close>

definition emptyURLCfg :: config where
  "emptyURLCfg =
     \<lparr>CacheTTL = 10, CacheDir = ''/c'',
      Options = [''work_groups'' \<mapsto> ''a'', ''url'' \<mapsto> '''']\<rparr>"

text \<open>
  The host records that a decoded document lists, read off the document and not off the
  parser's state: for every top-level entry other than \<^verbatim>\<open>_meta\<close> that is an object, in the
  order of traversal, and for every string in its \<^verbatim>\<open>hosts\<close> array that has an object entry
  in the hostvars table, one record with the datacenter of that entry.
\<close>

fun listedHosts :: "(string \<times> json) list \<Rightarrow> string \<Rightarrow> json list \<Rightarrow> host list" where
  "listedHosts hostvars grp [] = []"
| "listedHosts hostvars grp (JStr hostName # hs) =
     (case map_of hostvars hostName of
        Some (JObj hostInfo) \<Rightarrow>
          \<lparr>FQDN = hostName, GroupID = grp, DatacenterID = dcOf hostInfo\<rparr> #
          listedHosts hostvars grp hs
      | _ \<Rightarrow> listedHosts hostvars grp hs)"
| "listedHosts hostvars grp (_ # hs) = listedHosts hostvars grp hs"

definition groupHosts :: "(string \<times> json) list \<Rightarrow> string \<times> json \<Rightarrow> host list" where
  "groupHosts hostvars entry =
     (if fst entry = ''_meta'' then []
      else case snd entry of
        JObj groupMap \<Rightarrow>
          (case map_of groupMap ''hosts'' of
             Some (JArr hs) \<Rightarrow> listedHosts hostvars (fst entry) hs
           | _ \<Rightarrow> [])
      | _ \<Rightarrow> [])"

definition documentHosts :: "(string \<times> json) list \<Rightarrow> (string \<times> json) list \<Rightarrow> host list" where
  "documentHosts hostvars rawData = concat (map (groupHosts hostvars) rawData)"

text \<open>
  A document with two groups and five listed host names: \<^verbatim>\<open>h1\<close> in \<^verbatim>\<open>dc1\<close>, \<^verbatim>\<open>h2\<close> in
  \<^verbatim>\<open>dc2\<close>, \<^verbatim>\<open>h3\<close> without a datacenter, \<^verbatim>\<open>h4\<close> in \<^verbatim>\<open>dc1\<close> again, and \<^verbatim>\<open>ghost\<close>, which the
  hostvars table does not know. Its environment decodes it in the order written.
\<close>

definition docB :: string where
  \<open>docB = ''{"_meta":{"hostvars":{"h1":{"dc":"dc1"},"h2":{"dc":"dc2"},"h3":{},"h4":{"dc":"dc1"}}},"g1":{"hosts":["h1","h2","h3"]},"g2":{"hosts":["h4","ghost","h3"]}}''\<close>

definition hostvarsB :: "(string \<times> json) list" where
  "hostvarsB =
     [(''h1'', JObj [(''dc'', JStr ''dc1'')]), (''h2'', JObj [(''dc'', JStr ''dc2'')]),
      (''h3'', JObj []), (''h4'', JObj [(''dc'', JStr ''dc1'')])]"

definition rawB :: "(string \<times> json) list" where
  "rawB =
     [(''_meta'', JObj [(''hostvars'', JObj hostvarsB)]),
      (''g1'', JObj [(''hosts'', JArr [JStr ''h1'', JStr ''h2'', JStr ''h3''])]),
      (''g2'', JObj [(''hosts'', JArr [JStr ''h4'', JStr ''ghost'', JStr ''h3''])])]"

definition worldB :: world where
  "worldB =
     exWorld\<lparr>unmarshal_of := (\<lambda>d. if d = docB then Inr rawB
                                     else Inl (ErrJSON ''invalid character''))\<rparr>"

section \<open>Lemmas\<close>

lemma parseData_trace [simp]: "parseData y (w\<lparr>trace := t\<rparr>) d = parseData y w d"
  by (simp add: parseData_def)

lemma parseData_ok:
  "unmarshal_of w data = Inr rawData \<Longrightarrow> hostvarsOf rawData = Some hostvars \<Longrightarrow>
   parseData y w data = (None, groupsLoop hostvars (resetCollections y) rawData)"
  by (auto simp: parseData_def hostvarsOf_def split: option.splits json.splits)

lemma parseData_bad:
  "unmarshal_of w data = Inr rawData \<Longrightarrow> hostvarsOf rawData = None \<Longrightarrow>
   fst (parseData y w data) \<noteq> None \<and> snd (parseData y w data) = resetCollections y"
  by (auto simp: parseData_def hostvarsOf_def split: option.splits json.splits)

lemma parseData_None:
  assumes "parseData y w data = (None, y')"
  shows "\<exists>rawData hostvars. unmarshal_of w data = Inr rawData \<and>
           hostvarsOf rawData = Some hostvars \<and>
           y' = groupsLoop hostvars (resetCollections y) rawData"
proof (cases "unmarshal_of w data")
  case (Inl err)
  with assms show ?thesis by (simp add: parseData_def)
next
  case (Inr rawData)
  show ?thesis
  proof (cases "hostvarsOf rawData")
    case None
    with Inr assms parseData_bad [of w data rawData y] show ?thesis by simp
  next
    case (Some hostvars)
    with Inr assms parseData_ok [of w data rawData hostvars y] show ?thesis by simp
  qed
qed

lemma docA_ne_html: "''<html>'' \<noteq> docA"
  by (simp add: docA_def)

lemma docA_ne_empty: "''{}'' \<noteq> docA"
  by (simp add: docA_def)

lemma hostvarsOf_rawA: "hostvarsOf rawA = Some [(''a.x'', JObj [(''dc'', JStr ''dc1'')])]"
  by (simp add: hostvarsOf_def rawA_def metaA_def)

lemma groupsLoop_rawA:
  "groupsLoop [(''a.x'', JObj [(''dc'', JStr ''dc1'')])] (resetCollections exY) rawA = parsedA"
  by (simp add: rawA_def metaA_def g1A_def g2A_def groupStep_def resetCollections_def exY_def
      parsedA_def hostA_def appendGroupHost_def dcOf_def Let_def)

lemma parseData_docA: "unmarshal_of w docA = Inr rawA \<Longrightarrow> parseData exY w docA = (None, parsedA)"
  by (simp add: parseData_ok [OF _ hostvarsOf_rawA] groupsLoop_rawA)

lemma cacheFilename_exY: "cacheFilename exY = ''/c/yanductor_cache_a.json''"
  by (simp add: cacheFilename_def exY_def path_Join_def path_Clean_def Let_def)

section \<open>Properties of the loader\<close>

text \<open>
  C4, as stated, fails: when \<^verbatim>\<open>os.Stat\<close> fails with an error other than "not found",
  \<open>cacheExpired\<close> returns \<^verbatim>\<open>os.IsNotExist(err)\<close>, which is false, so the cache is treated
  as fresh, not as stale. Here the status of the cache file cannot be read and the check
  says "not expired".
\<close>

theorem cacheExpired_stat_error_counterexample:
  "stat_of statErrWorld (cacheFilename exY) = Inl (ErrOS ''permission denied'') \<and>
   \<not> os_IsNotExist (ErrOS ''permission denied'') \<and>
   fst (cacheExpired exY statErrWorld) = False"
  by (simp add: statErrWorld_def exWorld_def cacheExpired_def os_Stat_def os_IsNotExist_def)

text \<open>
  C4 (amended): the cache-freshness check returns fresh (not expired) exactly when either
  the cache file exists and its last-modified time plus the TTL is not before the current
  time, or the status of the file cannot be read for a reason other than "file not found";
  a missing file is stale. The check is a total function to \<open>bool\<close>: it never raises.
\<close>

theorem cacheExpired_fresh_iff:
  "(\<not> fst (cacheExpired y w)) =
     ((\<exists>modTime. stat_of w (cacheFilename y) = Inr modTime \<and>
                 \<not> (modTime + cacheTTL y < time_Now w)) \<or>
      (\<exists>err. stat_of w (cacheFilename y) = Inl err \<and> \<not> os_IsNotExist err))"
  by (auto simp: cacheExpired_def os_Stat_def split: sum.splits)

text \<open>C4, witness: a cache file of age 5 under a TTL of 10 is fresh.\<close>

theorem cacheExpired_fresh_iff_witness:
  "stat_of freshWorld (cacheFilename exY) = Inr 95 \<and>
   \<not> (95 + cacheTTL exY < time_Now freshWorld) \<and>
   \<not> fst (cacheExpired exY freshWorld)"
proof -
  have h: "stat_of freshWorld (cacheFilename exY) = Inr 95 \<and>
           \<not> (95 + cacheTTL exY < time_Now freshWorld)"
    by (simp add: freshWorld_def exWorld_def exY_def)
  with cacheExpired_fresh_iff [of exY freshWorld] show ?thesis by blast
qed

text \<open>
  C10: for every TTL and every cache file whose last-modified time is within the TTL
  window, \<open>Load\<close> reads and parses only the local cache: its outcome is that of reading
  and parsing the cache file, and the only calls it makes are one \<^verbatim>\<open>os.Stat\<close> and one
  \<^verbatim>\<open>os.ReadFile\<close> of the cache file, so no network call.
\<close>

theorem Load_fresh_local_only:
  assumes "stat_of w (cacheFilename y) = Inr modTime"
    and "\<not> (modTime + cacheTTL y < time_Now w)"
  shows "fst (Load y w) =
           (case file_of w (cacheFilename y) of
              Inl err \<Rightarrow> Some err
            | Inr data \<Rightarrow> fst (parseData y w data)) \<and>
         fst (snd (Load y w)) =
           (case file_of w (cacheFilename y) of
              Inl err \<Rightarrow> y
            | Inr data \<Rightarrow> snd (parseData y w data)) \<and>
         trace (snd (snd (Load y w))) =
           trace w @ [EvStat (cacheFilename y), EvReadFile (cacheFilename y)]"
  using assms
  by (simp add: Load_def cacheExpired_def os_Stat_def loadLocal_def os_ReadFile_def
      split: sum.splits prod.splits)

text \<open>C10, witness: the cache file of age 5 under a TTL of 10 is loaded without any
  network call.\<close>

theorem Load_fresh_local_only_witness:
  "stat_of freshWorld (cacheFilename exY) = Inr 95 \<and>
   \<not> (95 + cacheTTL exY < time_Now freshWorld) \<and>
   fst (Load exY freshWorld) = None \<and>
   fst (snd (Load exY freshWorld)) = parsedA \<and>
   trace (snd (snd (Load exY freshWorld))) =
     [EvStat ''/c/yanductor_cache_a.json'', EvReadFile ''/c/yanductor_cache_a.json'']"
proof -
  have h1: "stat_of freshWorld (cacheFilename exY) = Inr 95"
    by (simp add: freshWorld_def exWorld_def)
  have h2: "\<not> (95 + cacheTTL exY < time_Now freshWorld)"
    by (simp add: freshWorld_def exWorld_def exY_def)
  have p: "parseData exY freshWorld docA = (None, parsedA)"
    by (rule parseData_docA) (simp add: freshWorld_def exWorld_def)
  have f: "\<And>p. file_of freshWorld p = Inr docA" "trace freshWorld = []"
    by (simp_all add: freshWorld_def exWorld_def)
  from Load_fresh_local_only [OF h1 h2] h1 h2 show ?thesis
    by (simp add: f p cacheFilename_exY)
qed




text \<open>
  C3, as stated, fails: \<open>loadRemote\<close> returns the error of \<open>saveCache\<close>, and \<open>Reload\<close>
  answers every error of \<open>loadRemote\<close> with \<open>loadLocal\<close>. Here the fetch and the parse
  succeed, the cache directory cannot be made and there is no cache file: \<open>Reload\<close>
  returns the error of reading the file.
\<close>

theorem Reload_write_failure_counterexample:
  "http_of noWriteWorld (remoteURL exY) = Inr (200, Inr docA) \<and>
   parseData exY noWriteWorld docA = (None, parsedA) \<and>
   fst (saveCache parsedA docA noWriteWorld) = Some (ErrCreatingCacheDir (ErrOS ''permission denied'')) \<and>
   fst (Reload exY noWriteWorld) = Some ErrNotExist"
proof -
  have h: "http_of noWriteWorld (remoteURL exY) = Inr (200, Inr docA)"
    by (simp add: noWriteWorld_def exWorld_def)
  have p: "parseData exY noWriteWorld docA = (None, parsedA)"
    by (rule parseData_docA) (simp add: noWriteWorld_def exWorld_def)
  have s: "fst (saveCache parsedA docA noWriteWorld) =
             Some (ErrCreatingCacheDir (ErrOS ''permission denied''))"
    by (simp add: saveCache_def os_MkdirAll_def noWriteWorld_def exWorld_def)
  have r: "fst (Reload exY noWriteWorld) = Some ErrNotExist"
    by (simp add: noWriteWorld_def exWorld_def exY_def Reload_def loadRemote_def loadLocal_def
        http_Get_def io_ReadAll_def os_ReadFile_def parseData_def saveCache_def
        os_MkdirAll_def rawA_def metaA_def g1A_def g2A_def resetCollections_def
        groupStep_def appendGroupHost_def dcOf_def Let_def)
  from h p s r show ?thesis by blast
qed

text \<open>
  C3 (amended): for every \<open>Reload\<close> in which the remote fetch succeeds and the fetched
  bytes parse successfully, a successful cache write makes \<open>Reload\<close> return success with
  the parsed data held in memory; a failure of the cache write makes \<open>Reload\<close> read and
  parse the local cache file instead and return the outcome of that.
\<close>

theorem Reload_after_cache_write:
  assumes "http_of w (remoteURL y) = Inr (200, Inr data)"
    and "parseData y w data = (None, y1)"
    and "saveCache y1 data (w\<lparr>trace := trace w @ [EvHttpGet (remoteURL y), EvReadBody]\<rparr>) = (r, w3)"
  shows "Reload y w = (case r of None \<Rightarrow> (None, y1, w3) | Some err \<Rightarrow> loadLocal y1 w3)"
  using assms
  by (simp add: Reload_def loadRemote_def http_Get_def io_ReadAll_def Let_def
      split: option.splits)

text \<open>C3, witness: the cache directory cannot be made, and \<open>Reload\<close> turns to the
  local cache file.\<close>

theorem Reload_after_cache_write_witness:
  "http_of noWriteWorld (remoteURL exY) = Inr (200, Inr docA) \<and>
   parseData exY noWriteWorld docA = (None, parsedA) \<and>
   fst (saveCache parsedA docA
          (noWriteWorld\<lparr>trace := trace noWriteWorld @ [EvHttpGet (remoteURL exY), EvReadBody]\<rparr>)) =
     Some (ErrCreatingCacheDir (ErrOS ''permission denied'')) \<and>
   Reload exY noWriteWorld =
     loadLocal parsedA
       (snd (saveCache parsedA docA
          (noWriteWorld\<lparr>trace := trace noWriteWorld @ [EvHttpGet (remoteURL exY), EvReadBody]\<rparr>)))"
proof -
  let ?w2 = "noWriteWorld\<lparr>trace := trace noWriteWorld @ [EvHttpGet (remoteURL exY), EvReadBody]\<rparr>"
  have h: "http_of noWriteWorld (remoteURL exY) = Inr (200, Inr docA)"
    by (simp add: noWriteWorld_def exWorld_def)
  have p: "parseData exY noWriteWorld docA = (None, parsedA)"
    by (rule parseData_docA) (simp add: noWriteWorld_def exWorld_def)
  have s1: "fst (saveCache parsedA docA ?w2) =
              Some (ErrCreatingCacheDir (ErrOS ''permission denied''))"
    by (simp add: saveCache_def os_MkdirAll_def noWriteWorld_def exWorld_def)
  then have s: "saveCache parsedA docA ?w2 =
             (Some (ErrCreatingCacheDir (ErrOS ''permission denied'')),
              snd (saveCache parsedA docA ?w2))"
    by (simp add: prod_eq_iff)
  from Reload_after_cache_write [OF h p s] h p s1 show ?thesis by simp
qed

section \<open>Properties of the parser\<close>

text \<open>
  C9: if \<^verbatim>\<open>json.Unmarshal\<close> fails, \<open>parseData\<close> returns its error and leaves the backend
  as it was, with the hosts, groups, datacenters and parent map of the previous load; if
  the document decodes and the \<^verbatim>\<open>_meta\<close> section or its hostvars table is missing or is
  no object, \<open>parseData\<close> returns an error with all four collections empty.
\<close>

theorem parseData_failure_state:
  "(\<forall>err. unmarshal_of w data = Inl err \<longrightarrow> parseData y w data = (Some err, y)) \<and>
   (\<forall>rawData. unmarshal_of w data = Inr rawData \<and> hostvarsOf rawData = None \<longrightarrow>
      fst (parseData y w data) \<noteq> None \<and>
      hosts (snd (parseData y w data)) = [] \<and>
      groups (snd (parseData y w data)) = [] \<and>
      datacenters (snd (parseData y w data)) = [] \<and>
      parentMap (snd (parseData y w data)) = Map.empty)"
  by (auto simp: parseData_def hostvarsOf_def resetCollections_def
      split: option.splits json.splits)

text \<open>C9, witness: after Scenario A has been loaded, bytes that are no JSON keep the
  loaded data, and the document \<^verbatim>\<open>{}\<close> loses it.\<close>

theorem parseData_failure_state_witness:
  "unmarshal_of exWorld ''<html>'' = Inl (ErrJSON ''invalid character'') \<and>
   parseData parsedA exWorld ''<html>'' = (Some (ErrJSON ''invalid character''), parsedA) \<and>
   hosts parsedA \<noteq> [] \<and>
   unmarshal_of exWorld ''{}'' = Inr [] \<and> hostvarsOf [] = None \<and>
   fst (parseData parsedA exWorld ''{}'') \<noteq> None \<and>
   hosts (snd (parseData parsedA exWorld ''{}'')) = [] \<and>
   groups (snd (parseData parsedA exWorld ''{}'')) = [] \<and>
   datacenters (snd (parseData parsedA exWorld ''{}'')) = [] \<and>
   parentMap (snd (parseData parsedA exWorld ''{}'')) = Map.empty"
proof -
  have h1: "unmarshal_of exWorld ''<html>'' = Inl (ErrJSON ''invalid character'')"
    by (simp add: exWorld_def docA_ne_html)
  have h2: "unmarshal_of exWorld ''{}'' = Inr [] \<and> hostvarsOf [] = None"
    by (simp add: exWorld_def docA_ne_empty hostvarsOf_def)
  have h3: "hosts parsedA \<noteq> []"
    by (simp add: parsedA_def)
  from parseData_failure_state [of exWorld "''<html>''" parsedA] h1
  have a: "parseData parsedA exWorld ''<html>'' = (Some (ErrJSON ''invalid character''), parsedA)"
    by blast
  from parseData_failure_state [of exWorld "''{}''" parsedA] h2
  have b: "fst (parseData parsedA exWorld ''{}'') \<noteq> None \<and>
           hosts (snd (parseData parsedA exWorld ''{}'')) = [] \<and>
           groups (snd (parseData parsedA exWorld ''{}'')) = [] \<and>
           datacenters (snd (parseData parsedA exWorld ''{}'')) = [] \<and>
           parentMap (snd (parseData parsedA exWorld ''{}'')) = Map.empty"
    by blast
  from h1 h2 h3 a b show ?thesis by blast
qed

subsection \<open>Hosts\<close>

lemma hosts_appendGroupHost [simp]: "hosts (appendGroupHost y h) = hosts y"
  by (simp add: appendGroupHost_def split: list.splits)

lemma datacenters_appendGroupHost [simp]: "datacenters (appendGroupHost y h) = datacenters y"
  by (simp add: appendGroupHost_def split: list.splits)







subsection \<open>Datacenters\<close>

lemma contains_iff: "contains dcs item = (item \<in> set (map datacenter.Name dcs))"
  by (induction dcs) auto

lemma hostsLoop_dcInv: "dcInv y \<Longrightarrow> dcInv (hostsLoop hv g y hs)"
proof (induction hs arbitrary: y)
  case Nil
  then show ?case by simp
next
  case (Cons h hs)
  show ?case
  proof (cases h)
    case (JStr hostName)
    show ?thesis
    proof (cases "map_of hv hostName")
      case None
      with JStr Cons show ?thesis by simp
    next
      case (Some v)
      show ?thesis
      proof (cases v)
        case (JObj hostInfo)
        let ?dc = "dcOf hostInfo"
        let ?h = "\<lparr>FQDN = hostName, GroupID = g, DatacenterID = ?dc\<rparr>"
        let ?y2 = "appendGroupHost (y\<lparr>hosts := hosts y @ [?h]\<rparr>) ?h"
        let ?y3 = "if \<not> contains (datacenters ?y2) ?dc
                   then ?y2\<lparr>datacenters := datacenters ?y2 @ [\<lparr>datacenter.Name = ?dc\<rparr>]\<rparr>
                   else ?y2"
        have mem: "contains (datacenters y) ?dc = (?dc \<in> set (map DatacenterID (hosts y)))"
          using Cons.prems by (simp add: contains_iff dcInv_def del: set_map)
        have "dcInv ?y3"
          using Cons.prems mem by (auto simp: dcInv_def)
        then have "dcInv (hostsLoop hv g ?y3 hs)" by (rule Cons.IH)
        with JStr Some JObj show ?thesis by (simp add: Let_def)
      qed (use JStr Some Cons in simp_all)
    qed
  qed (use Cons in simp_all)
qed

lemma groupStep_dcInv:
  assumes "dcInv y"
  shows "dcInv (groupStep hv y e)"
proof -
  have b: "\<And>pm gs. dcInv (y\<lparr>parentMap := pm, groups := gs\<rparr>)" "\<And>gs. dcInv (y\<lparr>groups := gs\<rparr>)"
    using assms by (simp_all add: dcInv_def)
  show ?thesis
    using assms b
    by (auto simp: groupStep_def Let_def intro!: hostsLoop_dcInv split: json.splits option.splits)
qed

lemma groupsLoop_dcInv: "dcInv y \<Longrightarrow> dcInv (groupsLoop hv y es)"
  by (induction es arbitrary: y) (auto intro: groupStep_dcInv)

lemma hostsLoop_hosts: "hosts (hostsLoop hv g y hs) = hosts y @ listedHosts hv g hs"
proof (induction hv g hs arbitrary: y rule: listedHosts.induct)
  case (2 hv g hostName hs)
  show ?case
  proof (cases "map_of hv hostName")
    case None
    with 2 show ?thesis by simp
  next
    case (Some v)
    with 2 show ?thesis by (cases v) (simp_all add: Let_def)
  qed
qed simp_all

lemma groupStep_hosts: "hosts (groupStep hv y e) = hosts y @ groupHosts hv e"
  by (simp add: groupStep_def groupHosts_def hostsLoop_hosts Let_def
      split: json.splits option.splits)

lemma groupsLoop_hosts: "hosts (groupsLoop hv y es) = hosts y @ documentHosts hv es"
  by (induction es arbitrary: y) (simp_all add: documentHosts_def groupStep_hosts)

text \<open>
  C8: after every successful parse, that is, for every document that decodes and has its
  hostvars table, the host records are exactly those the document lists, in its order;
  no two entries of the datacenter collection have the same name; the names are exactly
  the datacenter names of the hosts the document lists (the empty name among them when a
  listed host has none); and they stand in the order in which they first occur there.
\<close>

theorem parseData_datacenters:
  assumes "unmarshal_of w data = Inr rawData" and "hostvarsOf rawData = Some hostvars"
  shows "fst (parseData y w data) = None \<and>
         hosts (snd (parseData y w data)) = documentHosts hostvars rawData \<and>
         distinct (map datacenter.Name (datacenters (snd (parseData y w data)))) \<and>
         set (map datacenter.Name (datacenters (snd (parseData y w data)))) =
           set (map DatacenterID (documentHosts hostvars rawData)) \<and>
         map datacenter.Name (datacenters (snd (parseData y w data))) =
           rev (remdups (rev (map DatacenterID (documentHosts hostvars rawData))))"
proof -
  let ?y' = "groupsLoop hostvars (resetCollections y) rawData"
  have p: "parseData y w data = (None, ?y')"
    using assms by (rule parseData_ok)
  have h: "hosts ?y' = documentHosts hostvars rawData"
    by (simp add: groupsLoop_hosts resetCollections_def)
  have "dcInv (resetCollections y)"
    by (simp add: dcInv_def resetCollections_def)
  then have "dcInv ?y'"
    by (rule groupsLoop_dcInv)
  then have eq: "map datacenter.Name (datacenters ?y') =
                   rev (remdups (rev (map DatacenterID (documentHosts hostvars rawData))))"
    by (simp add: dcInv_def h)
  have d: "distinct (map datacenter.Name (datacenters ?y'))"
    unfolding eq by simp
  have s: "set (map datacenter.Name (datacenters ?y')) =
             set (map DatacenterID (documentHosts hostvars rawData))"
    unfolding eq by simp
  from h eq d s show ?thesis by (simp add: p)
qed

text \<open>C8, witness: the document with two groups. Its listed hosts have the datacenters
  \<^verbatim>\<open>dc1\<close>, \<^verbatim>\<open>dc2\<close>, none, \<^verbatim>\<open>dc1\<close>, none, and the datacenter collection is \<^verbatim>\<open>dc1\<close>, \<^verbatim>\<open>dc2\<close>
  and the empty name, in that order.\<close>

theorem parseData_datacenters_witness:
  "unmarshal_of worldB docB = Inr rawB \<and>
   hostvarsOf rawB = Some hostvarsB \<and>
   map FQDN (documentHosts hostvarsB rawB) = [''h1'', ''h2'', ''h3'', ''h4'', ''h3''] \<and>
   map DatacenterID (documentHosts hostvarsB rawB) = [''dc1'', ''dc2'', '''', ''dc1'', ''''] \<and>
   fst (parseData exY worldB docB) = None \<and>
   hosts (snd (parseData exY worldB docB)) = documentHosts hostvarsB rawB \<and>
   distinct (map datacenter.Name (datacenters (snd (parseData exY worldB docB)))) \<and>
   map datacenter.Name (datacenters (snd (parseData exY worldB docB))) = [''dc1'', ''dc2'', '''']"
proof -
  have h1: "unmarshal_of worldB docB = Inr rawB"
    by (simp add: worldB_def)
  have h2: "hostvarsOf rawB = Some hostvarsB"
    by (simp add: hostvarsOf_def rawB_def)
  have l: "documentHosts hostvarsB rawB =
             [\<lparr>FQDN = ''h1'', GroupID = ''g1'', DatacenterID = ''dc1''\<rparr>,
              \<lparr>FQDN = ''h2'', GroupID = ''g1'', DatacenterID = ''dc2''\<rparr>,
              \<lparr>FQDN = ''h3'', GroupID = ''g1'', DatacenterID = ''''\<rparr>,
              \<lparr>FQDN = ''h4'', GroupID = ''g2'', DatacenterID = ''dc1''\<rparr>,
              \<lparr>FQDN = ''h3'', GroupID = ''g2'', DatacenterID = ''''\<rparr>]"
    by (simp add: documentHosts_def groupHosts_def rawB_def hostvarsB_def dcOf_def)
  have f: "map FQDN (documentHosts hostvarsB rawB) = [''h1'', ''h2'', ''h3'', ''h4'', ''h3'']"
    by (simp add: l)
  have d: "map DatacenterID (documentHosts hostvarsB rawB) = [''dc1'', ''dc2'', '''', ''dc1'', '''']"
    by (simp add: l)
  have r: "rev (remdups (rev [''dc1'', ''dc2'', '''', ''dc1'', ''''])) = [''dc1'', ''dc2'', '''']"
    by simp
  from parseData_datacenters [OF h1 h2, of exY] h1 h2 f d r show ?thesis by simp
qed

subsection \<open>Parents\<close>

text \<open>
  C2: the claim is right and \<open>parseData\<close> misses it. The group record is built in the same
  pass that fills the parent map, so a group visited before its parent gets the empty
  \<open>ParentID\<close>. For the document of Scenario A visited in the order \<^verbatim>\<open>_meta\<close>, \<^verbatim>\<open>g2\<close>, \<^verbatim>\<open>g1\<close>
  the parse succeeds, the parent map ends with \<^verbatim>\<open>g2\<close> under \<^verbatim>\<open>g1\<close>, and the record of
  \<^verbatim>\<open>g2\<close> has no parent; in the order \<^verbatim>\<open>_meta\<close>, \<^verbatim>\<open>g1\<close>, \<^verbatim>\<open>g2\<close> it has the parent \<^verbatim>\<open>g1\<close>.
\<close>

theorem parseData_parent_order_dependent:
  "unmarshal_of g2FirstWorld docA = Inr rawA_g2_first \<and>
   fst (parseData exY g2FirstWorld docA) = None \<and>
   map group.Name (groups (snd (parseData exY g2FirstWorld docA))) = [''g2'', ''g1''] \<and>
   map ParentID (groups (snd (parseData exY g2FirstWorld docA))) = ['''', ''''] \<and>
   parentMap (snd (parseData exY g2FirstWorld docA)) ''g2'' = Some ''g1'' \<and>
   unmarshal_of exWorld docA = Inr rawA \<and>
   map group.Name (groups (snd (parseData exY exWorld docA))) = [''g1'', ''g2''] \<and>
   map ParentID (groups (snd (parseData exY exWorld docA))) = ['''', ''g1'']"
proof -
  have u: "unmarshal_of g2FirstWorld docA = Inr rawA_g2_first"
    by (simp add: g2FirstWorld_def exWorld_def)
  have hv: "hostvarsOf rawA_g2_first = Some [(''a.x'', JObj [(''dc'', JStr ''dc1'')])]"
    by (simp add: hostvarsOf_def rawA_g2_first_def metaA_def)
  have p: "parseData exY g2FirstWorld docA =
             (None, groupsLoop [(''a.x'', JObj [(''dc'', JStr ''dc1'')])]
                      (resetCollections exY) rawA_g2_first)"
    using u hv by (rule parseData_ok)
  have g: "groupsLoop [(''a.x'', JObj [(''dc'', JStr ''dc1'')])]
             (resetCollections exY) rawA_g2_first =
           exY\<lparr>hosts := [hostA],
               groups := [\<lparr>group.Name = ''g2'', ParentID = '''', Hosts = []\<rparr>,
                          \<lparr>group.Name = ''g1'', ParentID = '''', Hosts = [hostA]\<rparr>],
               datacenters := [\<lparr>datacenter.Name = ''dc1''\<rparr>],
               parentMap := [''g2'' \<mapsto> ''g1'']\<rparr>"
    by (simp add: rawA_g2_first_def metaA_def g1A_def g2A_def groupStep_def
        resetCollections_def exY_def hostA_def appendGroupHost_def dcOf_def Let_def)
  have u2: "unmarshal_of exWorld docA = Inr rawA"
    by (simp add: exWorld_def)
  have p2: "parseData exY exWorld docA = (None, parsedA)"
    using u2 by (rule parseData_docA)
  show ?thesis
    by (simp add: u u2 p g p2) (simp add: parsedA_def)
qed

section \<open>Properties of construction\<close>

lemma New_missing_option:
  assumes "Options cfg ''work_groups'' = None \<or> Options cfg ''work_groups'' = Some '''' \<or>
           Options cfg ''url'' = None"
  shows "New cfg w = (Inl ErrWorkgroupsNotConfigured, w) \<or>
         New cfg w = (Inl ErrURLNotConfigured, w)"
  using assms by (auto simp: New_def Let_def split: option.splits)

text \<open>
  C5: the claim is right and \<open>New\<close> misses one case of it. The check of the workgroup
  list refuses a missing and an empty option; the check of the URL refuses a missing
  option only. With the URL option present and empty, \<open>New\<close> goes on to \<open>Load\<close>: with a
  fresh cache file it reads the file and construction succeeds, and without a cache file
  it calls \<^verbatim>\<open>http.Get\<close> with a URL that has no scheme and no host, which fails, and then
  reads the file system again.
\<close>

theorem New_empty_url_proceeds:
  "Options emptyURLCfg ''url'' = Some '''' \<and>
   fst (New emptyURLCfg freshWorld) =
     Inr (parsedA\<lparr>apiURL := ''''\<rparr>) \<and>
   trace (snd (New emptyURLCfg freshWorld)) =
     [EvStat ''/c/yanductor_cache_a.json'', EvReadFile ''/c/yanductor_cache_a.json''] \<and>
   fst (New emptyURLCfg exWorld) = Inl (ErrLoadingData ErrNotExist) \<and>
   trace (snd (New emptyURLCfg exWorld)) =
     [EvStat ''/c/yanductor_cache_a.json'',
      EvHttpGet ''/api/generator/rivik.ansible-inventory?projects=a'',
      EvReadFile ''/c/yanductor_cache_a.json'']"
proof -
  let ?y = "exY\<lparr>apiURL := ''''\<rparr>"
  have o: "Options emptyURLCfg ''url'' = Some ''''" "Options emptyURLCfg ''work_groups'' = Some ''a''"
    by (simp_all add: emptyURLCfg_def)
  have s: "regexp_Split ''a'' = [''a'']"
    by (simp add: regexp_Split_def isSpace_def)
  have n: "\<And>w. New emptyURLCfg w =
             (case Load ?y w of
                (Some err, y3, w1) \<Rightarrow> (Inl (ErrLoadingData err), w1)
              | (None, y3, w1) \<Rightarrow> (Inr y3, w1))"
    by (simp add: New_def o s Let_def) (simp add: emptyURLCfg_def exY_def)
  have f: "cacheFilename ?y = ''/c/yanductor_cache_a.json''"
    by (simp add: cacheFilename_def exY_def path_Join_def path_Clean_def Let_def)
  have r: "remoteURL ?y = ''/api/generator/rivik.ansible-inventory?projects=a''"
    by (simp add: remoteURL_def exY_def)
  have g: "groupsLoop [(''a.x'', JObj [(''dc'', JStr ''dc1'')])] (resetCollections ?y) rawA =
             parsedA\<lparr>apiURL := ''''\<rparr>"
    by (simp add: rawA_def metaA_def g1A_def g2A_def groupStep_def resetCollections_def exY_def
        parsedA_def hostA_def appendGroupHost_def dcOf_def Let_def)
  have p: "parseData ?y freshWorld docA = (None, parsedA\<lparr>apiURL := ''''\<rparr>)"
    by (simp add: parseData_ok [OF _ hostvarsOf_rawA] g freshWorld_def exWorld_def)
  have l1: "Load ?y freshWorld =
              (None, parsedA\<lparr>apiURL := ''''\<rparr>,
               freshWorld\<lparr>trace := [EvStat ''/c/yanductor_cache_a.json'',
                                     EvReadFile ''/c/yanductor_cache_a.json'']\<rparr>)"
  proof -
    have w: "\<And>q. stat_of freshWorld q = Inr 95" "\<And>q. file_of freshWorld q = Inr docA"
      "time_Now freshWorld = 100" "trace freshWorld = []" "cacheTTL ?y = 10"
      by (simp_all add: freshWorld_def exWorld_def exY_def)
    show ?thesis
      by (simp add: Load_def cacheExpired_def os_Stat_def loadLocal_def os_ReadFile_def f p w)
  qed
  have l2: "Load ?y exWorld =
              (Some ErrNotExist, ?y,
               exWorld\<lparr>trace := [EvStat ''/c/yanductor_cache_a.json'',
                                   EvHttpGet ''/api/generator/rivik.ansible-inventory?projects=a'',
                                   EvReadFile ''/c/yanductor_cache_a.json'']\<rparr>)"
  proof -
    have w: "\<And>q. stat_of exWorld q = Inl ErrNotExist" "\<And>q. file_of exWorld q = Inl ErrNotExist"
      "\<And>u. http_of exWorld u = Inl (ErrHTTP ''connection refused'')" "trace exWorld = []"
      by (simp_all add: exWorld_def)
    show ?thesis
      by (simp add: Load_def cacheExpired_def os_Stat_def os_IsNotExist_def Reload_def
          loadRemote_def http_Get_def loadLocal_def os_ReadFile_def f r w Let_def)
  qed
  show ?thesis
    by (simp add: o n l1 l2)
qed

section \<open>Properties of the cache file name\<close>

lemma splitSlash_noslash: "CHR ''/'' \<notin> set f \<Longrightarrow> splitSlash cur f = [cur @ f]"
  by (induction f arbitrary: cur) auto

lemma splitSlash_append:
  "CHR ''/'' \<notin> set f \<Longrightarrow> splitSlash cur (xs @ CHR ''/'' # f) = splitSlash cur xs @ [f]"
  by (induction xs arbitrary: cur) (auto simp: splitSlash_noslash)

lemma cleanElems_append:
  "cleanElems r out (es @ es') = cleanElems r (cleanElems r out es) es'"
  by (induction es arbitrary: out) auto

lemma strings_Join_snoc:
  "xs \<noteq> [] \<Longrightarrow> strings_Join (xs @ [f]) sep = strings_Join xs sep @ sep @ f"
  by (induction xs sep rule: strings_Join.induct) auto

lemma set_strings_Join: "set (strings_Join xs sep) \<subseteq> \<Union> (set ` set xs) \<union> set sep"
  by (induction xs sep rule: strings_Join.induct) auto

lemma path_Clean_file:
  assumes clean: "path_Clean d = d" and d1: "d \<noteq> ''.''" and d2: "d \<noteq> ''/''"
    and f1: "CHR ''/'' \<notin> set f" and f2: "f \<noteq> []" "f \<noteq> ''.''" "f \<noteq> ''..''"
  shows "path_Clean (d @ CHR ''/'' # f) = d @ CHR ''/'' # f"
proof -
  have dne: "d \<noteq> []" using clean by (auto simp: path_Clean_def)
  define r where "r = (hd d = CHR ''/'')"
  define ce where "ce = cleanElems r [] (splitSlash [] d)"
  define pre where "pre = (if r then ''/'' else '''')"
  have d_eq: "d = pre @ strings_Join ce ''/''"
    using clean d1 dne unfolding path_Clean_def Let_def r_def ce_def pre_def
    by (auto split: if_splits)
  have ce_ne: "ce \<noteq> []"
  proof
    assume "ce = []"
    with d_eq have "d = pre" by simp
    with dne d2 show False by (auto simp: pre_def split: if_splits)
  qed
  have hd_eq: "hd (d @ CHR ''/'' # f) = hd d" using dne by simp
  have ces: "cleanElems r [] (splitSlash [] (d @ CHR ''/'' # f)) = ce @ [f]"
    using f1 f2 by (simp add: splitSlash_append cleanElems_append ce_def)
  have "path_Clean (d @ CHR ''/'' # f) =
          (let out = pre @ strings_Join (cleanElems r [] (splitSlash [] (d @ CHR ''/'' # f))) ''/''
           in if out = [] then ''.'' else out)"
    by (simp add: path_Clean_def hd_eq r_def pre_def Let_def)
  also have "\<dots> = pre @ strings_Join (ce @ [f]) ''/''"
    using ce_ne by (simp add: ces Let_def strings_Join_snoc)
  also have "\<dots> = d @ CHR ''/'' # f"
    using d_eq ce_ne by (simp add: strings_Join_snoc)
  finally show ?thesis .
qed

text \<open>
  C6, as stated, fails: \<open>cacheFilename\<close> joins the workgroup names in the order of the
  configuration and sorts nothing, so the same set of names in another order gives
  another path.
\<close>

theorem cacheFilename_order_counterexample:
  "set (workgroupNames (exY\<lparr>workgroupNames := [''a'', ''b'']\<rparr>)) =
     set (workgroupNames (exY\<lparr>workgroupNames := [''b'', ''a'']\<rparr>)) \<and>
   cacheDir (exY\<lparr>workgroupNames := [''a'', ''b'']\<rparr>) =
     cacheDir (exY\<lparr>workgroupNames := [''b'', ''a'']\<rparr>) \<and>
   cacheFilename (exY\<lparr>workgroupNames := [''a'', ''b'']\<rparr>) = ''/c/yanductor_cache_a_b.json'' \<and>
   cacheFilename (exY\<lparr>workgroupNames := [''b'', ''a'']\<rparr>) = ''/c/yanductor_cache_b_a.json'' \<and>
   cacheFilename (exY\<lparr>workgroupNames := [''a'', ''b'']\<rparr>) \<noteq>
     cacheFilename (exY\<lparr>workgroupNames := [''b'', ''a'']\<rparr>)"
  by (auto simp: cacheFilename_def exY_def path_Join_def path_Clean_def Let_def)

text \<open>
  C6 (amended): the cache file path is a deterministic function of the configured cache
  directory and the list of requested workgroup names in their configured order (nothing
  is sorted): for a cache directory that is a clean path other than \<^verbatim>\<open>.\<close> and \<^verbatim>\<open>/\<close> and
  names without a slash it is
  \<^verbatim>\<open><cacheDir>/yanductor_cache_<names joined by "_">.json\<close>, and two configurations with the
  same cache directory and the same list of names yield the same path.
\<close>

theorem cacheFilename_form:
  assumes "path_Clean (cacheDir y) = cacheDir y"
    and "cacheDir y \<noteq> ''.''" and "cacheDir y \<noteq> ''/''"
    and "\<forall>n \<in> set (workgroupNames y). CHR ''/'' \<notin> set n"
  shows "cacheFilename y =
           cacheDir y @ ''/'' @ ''yanductor_cache'' @ ''_'' @
           strings_Join (workgroupNames y) ''_'' @ ''.json'' \<and>
         (\<forall>y'. cacheDir y' = cacheDir y \<and> workgroupNames y' = workgroupNames y \<longrightarrow>
            cacheFilename y' = cacheFilename y)"
proof -
  let ?f = "''yanductor_cache_'' @ strings_Join (workgroupNames y) ''_'' @ ''.json''"
  have dne: "cacheDir y \<noteq> []" using assms(1) by (auto simp: path_Clean_def)
  have "CHR ''/'' \<notin> set (strings_Join (workgroupNames y) ''_'')"
    using set_strings_Join [of "workgroupNames y" "''_''"] assms(4) by auto
  then have f1: "CHR ''/'' \<notin> set ?f" by simp
  have f2: "?f \<noteq> []" "?f \<noteq> ''.''" "?f \<noteq> ''..''" by simp_all
  have "cacheFilename y = path_Clean (cacheDir y @ CHR ''/'' # ?f)"
    using dne by (simp add: cacheFilename_def path_Join_def)
  also have "\<dots> = cacheDir y @ CHR ''/'' # ?f"
    by (rule path_Clean_file [OF assms(1-3) f1 f2])
  finally have a: "cacheFilename y =
           cacheDir y @ ''/'' @ ''yanductor_cache'' @ ''_'' @
           strings_Join (workgroupNames y) ''_'' @ ''.json''" by simp
  have b: "\<forall>y'. cacheDir y' = cacheDir y \<and> workgroupNames y' = workgroupNames y \<longrightarrow>
            cacheFilename y' = cacheFilename y"
    by (simp add: cacheFilename_def)
  from a b show ?thesis by blast
qed

text \<open>C6, witness: the workgroups \<^verbatim>\<open>a\<close> and \<^verbatim>\<open>b\<close> cached under \<^verbatim>\<open>/c\<close>.\<close>

theorem cacheFilename_form_witness:
  "path_Clean (cacheDir (exY\<lparr>workgroupNames := [''a'', ''b'']\<rparr>)) =
     cacheDir (exY\<lparr>workgroupNames := [''a'', ''b'']\<rparr>) \<and>
   cacheDir (exY\<lparr>workgroupNames := [''a'', ''b'']\<rparr>) = ''/c'' \<and>
   cacheFilename (exY\<lparr>workgroupNames := [''a'', ''b'']\<rparr>) =
     ''/c'' @ ''/'' @ ''yanductor_cache'' @ ''_'' @ strings_Join [''a'', ''b''] ''_'' @ ''.json''"
proof -
  let ?y = "exY\<lparr>workgroupNames := [''a'', ''b'']\<rparr>"
  have h1: "path_Clean (cacheDir ?y) = cacheDir ?y"
    by (simp add: exY_def path_Clean_def Let_def)
  have h2: "cacheDir ?y \<noteq> ''.''" "cacheDir ?y \<noteq> ''/''"
    by (simp_all add: exY_def)
  have h3: "\<forall>n \<in> set (workgroupNames ?y). CHR ''/'' \<notin> set n"
    by simp
  have c: "cacheDir ?y = ''/c''" "workgroupNames ?y = [''a'', ''b'']"
    by (simp_all add: exY_def)
  from cacheFilename_form [OF h1 h2 h3] h1 c show ?thesis by simp
qed

end
